theory Spec2Isabelle
  imports Main
begin

section \<open>Data model of the filter-by-value transformer\<close>

text \<open>
  The transformer of \<^verbatim>\<open>filterByValue.ts\<close> selects rows of column-oriented frames.
  A value read from a vector is either a stored value or JavaScript's \<^verbatim>\<open>undefined\<close>,
  which is what \<^verbatim>\<open>ArrayVector.get\<close> yields for an index outside its buffer.
\<close>

datatype 'a jsval = Undefined | Val 'a

text \<open>
  Modelled from the spec: the enumeration \<^verbatim>\<open>FieldType\<close> is declared in
  \<^verbatim>\<open>types/dataFrame\<close>, outside the file verified here; the spec lists the tags
  numeric, string, time, boolean and other.
\<close>

datatype FieldType = FTime | FNumber | FString | FBoolean | FOther

text \<open>
  A field: its name, its type tag, its value vector and its configuration bag, which the
  transformer copies without looking inside (type \<open>'c\<close>).
\<close>

record ('a, 'c) Field =
  name :: string
  ftype :: FieldType
  fvalues :: "'a jsval list"
  config :: 'c

text \<open>
  A frame: its fields (\<open>ffields\<close>, since the record package reserves the name
  \<open>fields\<close>) and its explicit row count \<^verbatim>\<open>length\<close> (\<open>flength\<close>). The frames that
  the transformer builds carry these two attributes only (lines 131 to 134).
\<close>

record ('a, 'c) DataFrame =
  ffields :: "('a, 'c) Field list"
  flength :: nat

text \<open>
  \<^verbatim>\<open>interface ValueFilter\<close>. \<^verbatim>\<open>fieldName\<close> and the two expressions are
  \<^verbatim>\<open>string | null\<close>; \<^verbatim>\<open>filterType\<close> is the identifier looked up in the registry (a string
  enumeration at run time); \<^verbatim>\<open>filterArgs\<close> is an open bag (type \<open>'g\<close>).
\<close>

record 'g ValueFilter =
  fieldName :: "string option"
  filterExpression :: "string option"
  filterExpression2 :: "string option"
  filterArgs :: 'g
  filterType :: string

text \<open>
  \<^verbatim>\<open>interface FilterByValueTransformerOptions\<close>. The fields \<^verbatim>\<open>type\<close> and \<^verbatim>\<open>match\<close> are
  declared as strings; \<open>None\<close> stands for a property that is absent when the options
  object arrives, which JavaScript reads as \<^verbatim>\<open>undefined\<close>.
\<close>

record 'g FilterByValueTransformerOptions =
  valueFilters :: "'g ValueFilter list"
  opt_type :: "string option"
  opt_match :: "string option"

text \<open>The object literal handed to \<^verbatim>\<open>getInstance\<close> (lines 76 to 81).\<close>

record 'g InstanceOptions =
  io_filterExpression :: "string option"
  io_filterExpression2 :: "string option"
  io_filterArgs :: 'g
  io_fieldType :: FieldType

text \<open>
  The filter instance returned by \<^verbatim>\<open>getInstance\<close>: the transformer reads \<^verbatim>\<open>isValid\<close>
  and calls \<^verbatim>\<open>test\<close>; the advisory flags read by the editor only are left out.
\<close>

record 'a FilterInstance =
  isValid :: bool
  test :: "'a jsval \<Rightarrow> bool"

text \<open>
  The registry \<^verbatim>\<open>valueFiltersRegistry\<close> lives in \<^verbatim>\<open>../valueFilters\<close>, outside the file
  verified here, so it is a parameter of the model: a partial map from identifiers to
  \<^verbatim>\<open>getInstance\<close> functions. \<^verbatim>\<open>get\<close> throws on an identifier that was never registered.
\<close>

type_synonym ('a, 'g) Registry = "string \<Rightarrow> ('g InstanceOptions \<Rightarrow> 'a FilterInstance) option"

datatype error = UnknownPredicateKind string

section \<open>The transformer\<close>

text \<open>
  Modelled from the spec: \<^verbatim>\<open>getFieldDisplayName\<close> is imported from \<^verbatim>\<open>field/fieldState\<close>,
  outside the file verified here; the spec describes a field's name as the one
  resolved by the display-name function, so the record's \<open>name\<close> is that resolved name.
\<close>

definition getFieldDisplayName :: "('a, 'c) Field \<Rightarrow> string" where
  "getFieldDisplayName f = name f"

text \<open>Lines 63 to 69: the first field whose display name is the filter's \<^verbatim>\<open>fieldName\<close>.\<close>

fun findField :: "('a, 'c) Field list \<Rightarrow> string option \<Rightarrow> ('a, 'c) Field option" where
  "findField [] fn = None"
| "findField (f # fs) fn =
     (if Some (getFieldDisplayName f) = fn then Some f else findField fs fn)"

text \<open>\<^verbatim>\<open>values.get(row)\<close>: \<^verbatim>\<open>undefined\<close> outside the buffer.\<close>

definition vget :: "'a jsval list \<Rightarrow> nat \<Rightarrow> 'a jsval" where
  "vget xs i = (if i < length xs then xs ! i else Undefined)"

text \<open>
  \<^verbatim>\<open>includeThisRow[row] = b\<close> on a JavaScript array: an index at or past the end extends
  the array, leaving holes (\<open>None\<close>) in between.
\<close>

definition setRow :: "bool option list \<Rightarrow> nat \<Rightarrow> bool \<Rightarrow> bool option list" where
  "setRow inc row b =
     (if row < length inc then inc[row := Some b]
      else inc @ replicate (row - length inc) None @ [Some b])"

text \<open>The body of the row loop under \<^verbatim>\<open>matchAll\<close> (lines 90 to 94).\<close>

definition allStep ::
  "bool \<Rightarrow> nat \<Rightarrow> 'a FilterInstance \<Rightarrow> ('a, 'c) Field \<Rightarrow> nat \<Rightarrow> bool option list \<Rightarrow> bool option list"
where
  "allStep includeRow filterIndex inst field row inc =
     (if \<not> test inst (vget (fvalues field) row) then setRow inc row (\<not> includeRow)
      else if filterIndex = 0 then setRow inc row includeRow
      else inc)"

text \<open>The body of the row loop otherwise (lines 99 to 103).\<close>

definition anyStep ::
  "bool \<Rightarrow> nat \<Rightarrow> 'a FilterInstance \<Rightarrow> ('a, 'c) Field \<Rightarrow> nat \<Rightarrow> bool option list \<Rightarrow> bool option list"
where
  "anyStep includeRow filterIndex inst field row inc =
     (if test inst (vget (fvalues field) row) then setRow inc row includeRow
      else if filterIndex = 0 then setRow inc row (\<not> includeRow)
      else inc)"

text \<open>Lines 87 to 105: one valid filter run over the rows \<open>0 ..< frame.length\<close>.\<close>

definition testRows ::
  "bool \<Rightarrow> bool \<Rightarrow> nat \<Rightarrow> 'a FilterInstance \<Rightarrow> ('a, 'c) Field \<Rightarrow> nat \<Rightarrow> bool option list
     \<Rightarrow> bool option list"
where
  "testRows includeRow matchAll filterIndex inst field n inc =
     (if matchAll then fold (allStep includeRow filterIndex inst field) [0..<n] inc
      else fold (anyStep includeRow filterIndex inst field) [0..<n] inc)"

text \<open>
  Lines 59 to 106: the loop over the filters of one frame, from \<open>filterIndex\<close> on. A filter
  whose field is not in the frame, or whose instance is not valid, is passed over; a
  filter type the registry does not know ends the call.
\<close>

fun filtersLoop ::
  "('a, 'g) Registry \<Rightarrow> bool \<Rightarrow> bool \<Rightarrow> ('a, 'c) DataFrame \<Rightarrow> nat \<Rightarrow> 'g ValueFilter list
     \<Rightarrow> bool option list \<Rightarrow> error + bool option list"
where
  "filtersLoop reg includeRow matchAll frame filterIndex [] inc = Inr inc"
| "filtersLoop reg includeRow matchAll frame filterIndex (flt # rest) inc =
     (case findField (ffields frame) (fieldName flt) of
        None \<Rightarrow> filtersLoop reg includeRow matchAll frame (Suc filterIndex) rest inc
      | Some field \<Rightarrow>
          (case reg (filterType flt) of
             None \<Rightarrow> Inl (UnknownPredicateKind (filterType flt))
           | Some getInstance \<Rightarrow>
               (let filterInstance = getInstance
                      \<lparr>io_filterExpression = filterExpression flt,
                       io_filterExpression2 = filterExpression2 flt,
                       io_filterArgs = filterArgs flt,
                       io_fieldType = ftype field\<rparr>
                in if \<not> isValid filterInstance
                   then filtersLoop reg includeRow matchAll frame (Suc filterIndex) rest inc
                   else filtersLoop reg includeRow matchAll frame (Suc filterIndex) rest
                          (testRows includeRow matchAll filterIndex filterInstance field
                             (flength frame) inc))))"

text \<open>
  Lines 109 to 118: the skeleton of the new fields, every attribute copied and the value
  vector fresh.
\<close>

definition skeleton :: "('a, 'c) Field list \<Rightarrow> ('a, 'c) Field list" where
  "skeleton fs = map (\<lambda>field. field\<lparr>fvalues := []\<rparr>) fs"

text \<open>
  Lines 124 to 126: the value of the row in every field of the frame is added to the
  field at the same position of the skeleton.
\<close>

definition addRow ::
  "('a, 'c) DataFrame \<Rightarrow> nat \<Rightarrow> ('a, 'c) Field list \<Rightarrow> ('a, 'c) Field list"
where
  "addRow frame row filteredFields =
     map (\<lambda>(ff, f). ff\<lparr>fvalues := fvalues ff @ [vget (fvalues f) row]\<rparr>)
       (zip filteredFields (ffields frame))"

text \<open>Lines 123 to 128: a row is copied when its entry is truthy.\<close>

definition copyStep ::
  "('a, 'c) DataFrame \<Rightarrow> bool option list \<Rightarrow> nat \<Rightarrow> ('a, 'c) Field list \<times> nat
     \<Rightarrow> ('a, 'c) Field list \<times> nat"
where
  "copyStep frame inc row st =
     (if inc ! row = Some True then (addRow frame row (fst st), Suc (snd st)) else st)"

text \<open>
  Lines 108 to 134: the frame pushed to \<^verbatim>\<open>processed\<close>. The loop runs over the indices of
  \<^verbatim>\<open>includeThisRow\<close>, not over the rows of the frame.
\<close>

definition filteredFrame :: "('a, 'c) DataFrame \<Rightarrow> bool option list \<Rightarrow> ('a, 'c) DataFrame" where
  "filteredFrame frame inc =
     (let st = fold (copyStep frame inc) [0..<length inc] (skeleton (ffields frame), 0)
      in \<lparr>ffields = fst st, flength = snd st\<rparr>)"

text \<open>
  Lines 58 to 135: the loop over the frames. \<^verbatim>\<open>includeThisRow\<close> is declared before the
  loop (line 56), so each frame starts from the vector the frame before it left.
\<close>

fun framesLoop ::
  "('a, 'g) Registry \<Rightarrow> bool \<Rightarrow> bool \<Rightarrow> 'g ValueFilter list \<Rightarrow> ('a, 'c) DataFrame list
     \<Rightarrow> ('a, 'c) DataFrame list \<Rightarrow> bool option list
     \<Rightarrow> error + (('a, 'c) DataFrame list \<times> bool option list)"
where
  "framesLoop reg includeRow matchAll filters [] processed inc = Inr (processed, inc)"
| "framesLoop reg includeRow matchAll filters (frame # rest) processed inc =
     (case filtersLoop reg includeRow matchAll frame 0 filters inc of
        Inl e \<Rightarrow> Inl e
      | Inr inc' \<Rightarrow>
          framesLoop reg includeRow matchAll filters rest
            (processed @ [filteredFrame frame inc']) inc')"

text \<open>Lines 45 to 143: \<^verbatim>\<open>transformer(options)(data)\<close>.\<close>

definition transformer ::
  "('a, 'g) Registry \<Rightarrow> 'g FilterByValueTransformerOptions \<Rightarrow> ('a, 'c) DataFrame list
     \<Rightarrow> error + ('a, 'c) DataFrame list"
where
  "transformer reg options data =
     (let includeRow = (opt_type options = Some ''include'');
          matchAll = (opt_match options = Some ''all'')
      in if length (valueFilters options) = 0 then Inr data
         else (case framesLoop reg includeRow matchAll (valueFilters options) data [] [] of
                 Inl e \<Rightarrow> Inl e
               | Inr (processed, includeThisRow) \<Rightarrow>
                   if length includeThisRow > 0 then Inr processed else Inr data))"

section \<open>Auxiliary notions for the statements\<close>

text \<open>
  The rows that the copy loop of lines 122 to 129 emits for a decision vector: the indices
  with a truthy entry, in ascending order.
\<close>

definition selectedRows :: "bool option list \<Rightarrow> nat list" where
  "selectedRows inc = filter (\<lambda>row. inc ! row = Some True) [0..<length inc]"

text \<open>
  A filter is passed over in a frame when one of the two \<^verbatim>\<open>continue\<close> statements is
  reached: no field of the frame carries its \<^verbatim>\<open>fieldName\<close> (line 72), or the registry knows
  its type and the instance is not valid (line 84).
\<close>

definition skipped :: "('a, 'g) Registry \<Rightarrow> ('a, 'c) DataFrame \<Rightarrow> 'g ValueFilter \<Rightarrow> bool" where
  "skipped reg frame flt =
     (case findField (ffields frame) (fieldName flt) of
        None \<Rightarrow> True
      | Some field \<Rightarrow>
          (case reg (filterType flt) of
             None \<Rightarrow> False
           | Some getInstance \<Rightarrow>
               \<not> isValid (getInstance
                    \<lparr>io_filterExpression = filterExpression flt,
                     io_filterExpression2 = filterExpression2 flt,
                     io_filterArgs = filterArgs flt,
                     io_fieldType = ftype field\<rparr>)))"

text \<open>
  A filter meets an unregistered type in a frame when its field is found there and the
  registry lookup of line 76 fails.
\<close>

definition unknownKind :: "('a, 'g) Registry \<Rightarrow> ('a, 'c) DataFrame \<Rightarrow> 'g ValueFilter \<Rightarrow> bool" where
  "unknownKind reg frame flt =
     (findField (ffields frame) (fieldName flt) \<noteq> None \<and> reg (filterType flt) = None)"

text \<open>
  A filter applies to a frame when neither \<^verbatim>\<open>continue\<close> nor the failing lookup is
  reached: the result is the field found and the valid instance built for it.
\<close>

definition resolved ::
  "('a, 'g) Registry \<Rightarrow> ('a, 'c) DataFrame \<Rightarrow> 'g ValueFilter \<Rightarrow> (('a, 'c) Field \<times> 'a FilterInstance) option"
where
  "resolved reg frame flt =
     (case findField (ffields frame) (fieldName flt) of
        None \<Rightarrow> None
      | Some field \<Rightarrow>
          (case reg (filterType flt) of
             None \<Rightarrow> None
           | Some getInstance \<Rightarrow>
               (let filterInstance = getInstance
                      \<lparr>io_filterExpression = filterExpression flt,
                       io_filterExpression2 = filterExpression2 flt,
                       io_filterArgs = filterArgs flt,
                       io_fieldType = ftype field\<rparr>
                in if isValid filterInstance then Some (field, filterInstance) else None)))"

section \<open>A registry for the concrete scenarios\<close>

text \<open>
  Modelled from the spec: the predicate kinds are registered in \<^verbatim>\<open>../valueFilters\<close>, outside
  the file verified here. The scenarios of the spec use a string-equality kind
  \<^verbatim>\<open>equals\<close>; by the contract of the spec its instance is valid when the expression parses
  (here: is present and not empty), and its test is total, so it answers \<open>False\<close> on
  \<^verbatim>\<open>undefined\<close>.
\<close>

definition equalsInstance :: "'g InstanceOptions \<Rightarrow> string FilterInstance" where
  "equalsInstance cfg =
     (case io_filterExpression cfg of
        None \<Rightarrow> \<lparr>isValid = False, test = (\<lambda>v. False)\<rparr>
      | Some e \<Rightarrow> \<lparr>isValid = (e \<noteq> []), test = (\<lambda>v. v = Val e)\<rparr>)"

definition equalsRegistry :: "(string, 'g) Registry" where
  "equalsRegistry k = (if k = ''equals'' then Some equalsInstance else None)"

text \<open>A string field and an \<^verbatim>\<open>equals\<close> filter on a field, to write the scenarios with.\<close>

definition strField :: "string \<Rightarrow> string list \<Rightarrow> (string, unit) Field" where
  "strField n vs = \<lparr>name = n, ftype = FString, fvalues = map Val vs, config = ()\<rparr>"

definition equalsFilter :: "string \<Rightarrow> string \<Rightarrow> unit ValueFilter" where
  "equalsFilter n e =
     \<lparr>fieldName = Some n, filterExpression = Some e, filterExpression2 = None,
      filterArgs = (), filterType = ''equals''\<rparr>"

definition byValue :: "unit ValueFilter list \<Rightarrow> string \<Rightarrow> string \<Rightarrow> unit FilterByValueTransformerOptions" where
  "byValue fs t m = \<lparr>valueFilters = fs, opt_type = Some t, opt_match = Some m\<rparr>"

text \<open>The frame of scenarios A and B, and a frame with two fields.\<close>

definition scenarioFrame :: "(string, unit) DataFrame" where
  "scenarioFrame = \<lparr>ffields = [strField ''status'' [''ok'', ''fail'', ''ok'', ''fail'']], flength = 4\<rparr>"

definition twoFieldFrame :: "(string, unit) DataFrame" where
  "twoFieldFrame =
     \<lparr>ffields = [strField ''status'' [''ok'', ''fail''], strField ''host'' [''a'', ''b'']],
      flength = 2\<rparr>"

lemmas example_defs =
  byValue_def equalsFilter_def strField_def equalsRegistry_def equalsInstance_def
  scenarioFrame_def twoFieldFrame_def

section \<open>Properties of the loops\<close>

subsection \<open>The decision vector\<close>

text \<open>A write sets its own index, keeps the others and never shortens the vector.\<close>

lemma length_setRow: "length inc \<le> length (setRow inc row b)"
  by (simp add: setRow_def)

lemma setRow_same: "row < length (setRow inc row b) \<and> setRow inc row b ! row = Some b"
  by (simp add: setRow_def nth_append)

lemma setRow_other:
  "r < length inc \<Longrightarrow> r \<noteq> row \<Longrightarrow> r < length (setRow inc row b) \<and> setRow inc row b ! r = inc ! r"
  by (simp add: setRow_def nth_append)

lemma length_allStep: "length inc \<le> length (allStep ir k inst fld row inc)"
  by (simp add: allStep_def length_setRow)

lemma length_anyStep: "length inc \<le> length (anyStep ir k inst fld row inc)"
  by (simp add: anyStep_def length_setRow)

lemma length_fold_mono:
  assumes "\<And>row inc. length inc \<le> length (f row inc)"
  shows "length inc \<le> length (fold f rows (inc :: bool option list))"
proof (induction rows arbitrary: inc)
  case Nil
  show ?case by simp
next
  case (Cons row rows)
  have "length inc \<le> length (f row inc)" by (rule assms)
  also have "\<dots> \<le> length (fold f rows (f row inc))" by (rule Cons.IH)
  finally show ?case by simp
qed

lemma length_testRows: "length inc \<le> length (testRows ir ma k inst fld n inc)"
  by (simp add: testRows_def length_fold_mono length_allStep length_anyStep)

subsection \<open>The copy loop\<close>

text \<open>
  The frame built from a decision vector holds, in every field, the values at the selected
  rows in ascending order, and its length is the number of those rows.
\<close>

lemma addRow_map:
  "addRow frame row (map g (ffields frame))
   = map (\<lambda>f. (g f)\<lparr>fvalues := fvalues (g f) @ [vget (fvalues f) row]\<rparr>) (ffields frame)"
  by (simp add: addRow_def zip_map1 zip_same_conv_map)

lemma fold_copyStep:
  "fold (copyStep frame inc) [0..<n] (skeleton (ffields frame), 0)
   = (map (\<lambda>f. f\<lparr>fvalues := map (vget (fvalues f)) (filter (\<lambda>row. inc ! row = Some True) [0..<n])\<rparr>)
        (ffields frame),
      length (filter (\<lambda>row. inc ! row = Some True) [0..<n]))"
proof (induction n)
  case 0
  show ?case by (simp add: skeleton_def)
next
  case (Suc n)
  have "fold (copyStep frame inc) [0..<Suc n] (skeleton (ffields frame), 0)
        = copyStep frame inc n (fold (copyStep frame inc) [0..<n] (skeleton (ffields frame), 0))"
    by simp
  also have "\<dots> = copyStep frame inc n
      (map (\<lambda>f. f\<lparr>fvalues := map (vget (fvalues f)) (filter (\<lambda>row. inc ! row = Some True) [0..<n])\<rparr>)
        (ffields frame),
       length (filter (\<lambda>row. inc ! row = Some True) [0..<n]))"
    by (simp only: Suc)
  also have "\<dots> = (map (\<lambda>f. f\<lparr>fvalues := map (vget (fvalues f)) (filter (\<lambda>row. inc ! row = Some True) [0..<Suc n])\<rparr>)
        (ffields frame),
      length (filter (\<lambda>row. inc ! row = Some True) [0..<Suc n]))"
    by (simp add: copyStep_def addRow_map)
  finally show ?case .
qed

lemma filteredFrame_eq:
  "filteredFrame frame inc
   = \<lparr>ffields = map (\<lambda>f. f\<lparr>fvalues := map (vget (fvalues f)) (selectedRows inc)\<rparr>) (ffields frame),
      flength = length (selectedRows inc)\<rparr>"
  by (simp add: filteredFrame_def fold_copyStep selectedRows_def Let_def)

subsection \<open>The loop over the filters\<close>

text \<open>
  One step of the loop, by the three ways a filter can go; and an invariant rule: what
  every run of a valid filter keeps, the whole loop keeps.
\<close>

lemma filtersLoop_Cons_cases:
  "filtersLoop reg ir ma frame k (flt # rest) inc =
     (if unknownKind reg frame flt then Inl (UnknownPredicateKind (filterType flt))
      else case resolved reg frame flt of
             None \<Rightarrow> filtersLoop reg ir ma frame (Suc k) rest inc
           | Some (field, inst) \<Rightarrow>
               filtersLoop reg ir ma frame (Suc k) rest
                 (testRows ir ma k inst field (flength frame) inc))"
  by (simp add: unknownKind_def resolved_def Let_def split: option.splits)

lemma filtersLoop_invariant:
  fixes frame :: "('a, 'c) DataFrame" and reg :: "('a, 'g) Registry"
  assumes step: "\<And>j (inst :: 'a FilterInstance) (fld :: ('a, 'c) Field) v.
      k \<le> j \<Longrightarrow> P v \<Longrightarrow> P (testRows ir ma j inst fld (flength frame) v)"
    and "P inc"
    and "filtersLoop reg ir ma frame k fs inc = Inr inc'"
  shows "P inc'"
  using assms(2,3) step
proof (induction fs arbitrary: k inc)
  case Nil
  then show ?case by simp
next
  case (Cons flt fs)
  have nk: "\<not> unknownKind reg frame flt"
    using Cons.prems(2) by (auto simp del: filtersLoop.simps(2) simp add: filtersLoop_Cons_cases)
  have later: "\<And>j (inst :: 'a FilterInstance) (fld :: ('a, 'c) Field) v.
      Suc k \<le> j \<Longrightarrow> P v \<Longrightarrow> P (testRows ir ma j inst fld (flength frame) v)"
  proof -
    fix j and inst :: "'a FilterInstance" and fld :: "('a, 'c) Field" and v
    assume "Suc k \<le> j" and v: "P v"
    then have "k \<le> j" by simp
    from Cons.prems(3)[OF this v] show "P (testRows ir ma j inst fld (flength frame) v)" .
  qed
  show ?case
  proof (cases "resolved reg frame flt")
    case None
    with nk Cons.prems(2) have "filtersLoop reg ir ma frame (Suc k) fs inc = Inr inc'"
      by (simp del: filtersLoop.simps(2) add: filtersLoop_Cons_cases)
    from Cons.IH[OF Cons.prems(1) this later] show ?thesis .
  next
    case (Some p)
    obtain field inst where p: "p = (field, inst)" by (cases p)
    from Some p nk Cons.prems(2)
    have run: "filtersLoop reg ir ma frame (Suc k) fs
            (testRows ir ma k inst field (flength frame) inc) = Inr inc'"
      by (simp del: filtersLoop.simps(2) add: filtersLoop_Cons_cases)
    have "P (testRows ir ma k inst field (flength frame) inc)"
      using Cons.prems(3)[of k inc inst field] Cons.prems(1) by simp
    from Cons.IH[OF this run later] show ?thesis .
  qed
qed

lemma length_filtersLoop:
  fixes frame :: "('a, 'c) DataFrame" and reg :: "('a, 'g) Registry"
  assumes "filtersLoop reg ir ma frame k fs inc = Inr inc'"
  shows "length inc \<le> length inc'"
proof (rule filtersLoop_invariant[where P = "\<lambda>v. length inc \<le> length v", OF _ _ assms])
  fix j and inst :: "'a FilterInstance" and fld :: "('a, 'c) Field" and v :: "bool option list"
  assume "length inc \<le> length v"
  also have "length v \<le> length (testRows ir ma j inst fld (flength frame) v)"
    by (rule length_testRows)
  finally show "length inc \<le> length (testRows ir ma j inst fld (flength frame) v)" .
next
  show "length inc \<le> length inc" by simp
qed

subsection \<open>The loop over the frames\<close>

text \<open>
  When the loop returns, every frame of the result was built from the decision vector that
  the filters of that frame left, starting from some earlier vector; the vector only grows.
\<close>

lemma framesLoop_Inr:
  "framesLoop reg ir ma fs data processed inc = Inr (out, inc') \<Longrightarrow>
   \<exists>incs. length incs = length data
     \<and> out = processed @ map (\<lambda>(frame, v). filteredFrame frame v) (zip data incs)
     \<and> (\<forall>i<length data. (\<exists>inc0. filtersLoop reg ir ma (data ! i) 0 fs inc0 = Inr (incs ! i))
            \<and> length (incs ! i) \<le> length inc')
     \<and> length inc \<le> length inc'"
proof (induction data arbitrary: processed inc)
  case Nil
  then show ?case by simp
next
  case (Cons frame rest)
  from Cons.prems obtain inc1 where
    f: "filtersLoop reg ir ma frame 0 fs inc = Inr inc1" and
    r: "framesLoop reg ir ma fs rest (processed @ [filteredFrame frame inc1]) inc1 = Inr (out, inc')"
    by (auto split: sum.splits)
  from Cons.IH[OF r] obtain incs where
    l: "length incs = length rest" and
    o: "out = (processed @ [filteredFrame frame inc1]) @ map (\<lambda>(frame, v). filteredFrame frame v) (zip rest incs)" and
    a: "\<forall>i<length rest. (\<exists>inc0. filtersLoop reg ir ma (rest ! i) 0 fs inc0 = Inr (incs ! i))
            \<and> length (incs ! i) \<le> length inc'" and
    m: "length inc1 \<le> length inc'"
    by blast
  have "\<forall>i<length (frame # rest).
          (\<exists>inc0. filtersLoop reg ir ma ((frame # rest) ! i) 0 fs inc0 = Inr ((inc1 # incs) ! i))
            \<and> length ((inc1 # incs) ! i) \<le> length inc'"
  proof (intro allI impI)
    fix i assume "i < length (frame # rest)"
    then show "(\<exists>inc0. filtersLoop reg ir ma ((frame # rest) ! i) 0 fs inc0 = Inr ((inc1 # incs) ! i))
            \<and> length ((inc1 # incs) ! i) \<le> length inc'"
      using f m a by (cases i) auto
  qed
  moreover have "length inc \<le> length inc'"
    using length_filtersLoop[OF f] m by simp
  ultimately show ?case
    using l o by (intro exI[of _ "inc1 # incs"]) simp
qed

subsection \<open>Errors\<close>

text \<open>The loops fail exactly when some filter meets an unregistered type in some frame.\<close>

lemma isl_filtersLoop:
  "isl (filtersLoop reg ir ma frame k fs inc) = (\<exists>flt\<in>set fs. unknownKind reg frame flt)"
  by (induction fs arbitrary: k inc) (auto simp: unknownKind_def Let_def split: option.splits)

lemma isl_framesLoop:
  "isl (framesLoop reg ir ma fs data processed inc)
   = (\<exists>frame\<in>set data. \<exists>flt\<in>set fs. unknownKind reg frame flt)"
proof (induction data arbitrary: processed inc)
  case Nil
  show ?case by simp
next
  case (Cons frame rest)
  have eq: "isl (filtersLoop reg ir ma frame 0 fs inc) = (\<exists>flt\<in>set fs. unknownKind reg frame flt)"
    by (rule isl_filtersLoop)
  show ?case
  proof (cases "filtersLoop reg ir ma frame 0 fs inc")
    case (Inl e)
    with eq have "\<exists>flt\<in>set fs. unknownKind reg frame flt" by simp
    with Inl show ?thesis by auto
  next
    case (Inr inc1)
    with eq have "\<not> (\<exists>flt\<in>set fs. unknownKind reg frame flt)" by simp
    with Inr Cons.IH[of "processed @ [filteredFrame frame inc1]" inc1] show ?thesis by auto
  qed
qed

lemma isl_transformer:
  "isl (transformer reg options data)
   = (\<exists>frame\<in>set data. \<exists>flt\<in>set (valueFilters options). unknownKind reg frame flt)"
proof (cases "valueFilters options = []")
  case True
  then show ?thesis by (simp add: transformer_def)
next
  case False
  have "isl (transformer reg options data)
        = isl (framesLoop reg (opt_type options = Some ''include'') (opt_match options = Some ''all'')
                 (valueFilters options) data [] [])"
    using False by (simp add: transformer_def Let_def split: sum.splits prod.splits)
  then show ?thesis by (simp only: isl_framesLoop)
qed

subsection \<open>Filters that are passed over\<close>

text \<open>Filters that are passed over leave the decision vector as it was.\<close>

lemma filtersLoop_skipped:
  "\<forall>flt\<in>set fs. skipped reg frame flt \<Longrightarrow> filtersLoop reg ir ma frame k fs inc = Inr inc"
  by (induction fs arbitrary: k) (auto simp: skipped_def Let_def split: option.splits)

lemma framesLoop_skipped:
  "\<forall>frame\<in>set data. \<forall>flt\<in>set fs. skipped reg frame flt \<Longrightarrow>
   \<exists>out. framesLoop reg ir ma fs data processed inc = Inr (out, inc)"
  by (induction data arbitrary: processed) (simp_all add: filtersLoop_skipped)

subsection \<open>Match any\<close>

text \<open>
  Under match any a row that passes a filter is flagged with \<open>includeRow\<close> whatever the
  filter's index, and filters after the first never take that flag away.
\<close>

lemma anyStep_cases:
  "anyStep ir k inst fld row inc = inc \<or> (\<exists>b. anyStep ir k inst fld row inc = setRow inc row b)"
  by (auto simp: anyStep_def)

lemma fold_anyStep_hit:
  "r < n \<Longrightarrow> test inst (vget (fvalues fld) r) \<Longrightarrow>
   r < length (fold (anyStep ir k inst fld) [0..<n] inc)
   \<and> fold (anyStep ir k inst fld) [0..<n] inc ! r = Some ir"
proof (induction n)
  case 0
  then show ?case by simp
next
  case (Suc n)
  let ?v = "fold (anyStep ir k inst fld) [0..<n] inc"
  have unfold: "fold (anyStep ir k inst fld) [0..<Suc n] inc = anyStep ir k inst fld n ?v"
    by simp
  show ?case
  proof (cases "r = n")
    case True
    with Suc.prems(2) have "anyStep ir k inst fld n ?v = setRow ?v n ir"
      by (simp add: anyStep_def)
    with True unfold setRow_same[of n ?v ir] show ?thesis by simp
  next
    case False
    with Suc.prems have "r < n" by simp
    from Suc.IH[OF this Suc.prems(2)] have v: "r < length ?v" "?v ! r = Some ir" by simp_all
    have "r < length (anyStep ir k inst fld n ?v) \<and> anyStep ir k inst fld n ?v ! r = Some ir"
    proof (cases "anyStep ir k inst fld n ?v = ?v")
      case True
      with v show ?thesis by simp
    next
      case False
      then obtain b where "anyStep ir k inst fld n ?v = setRow ?v n b"
        using anyStep_cases[of ir k inst fld n ?v] by blast
      with v \<open>r \<noteq> n\<close> setRow_other[of r ?v n b] show ?thesis by simp
    qed
    with unfold show ?thesis by simp
  qed
qed

lemma anyStep_keep:
  assumes "k \<noteq> 0" "r < length inc" "inc ! r = Some ir"
  shows "r < length (anyStep ir k inst fld row inc) \<and> anyStep ir k inst fld row inc ! r = Some ir"
proof (cases "r = row")
  case True
  with assms setRow_same[of row inc ir] show ?thesis by (simp add: anyStep_def)
next
  case False
  with assms setRow_other[of r inc row] show ?thesis by (simp add: anyStep_def)
qed

lemma fold_anyStep_keep:
  "k \<noteq> 0 \<Longrightarrow> r < length inc \<Longrightarrow> inc ! r = Some ir \<Longrightarrow>
   r < length (fold (anyStep ir k inst fld) rows inc)
   \<and> fold (anyStep ir k inst fld) rows inc ! r = Some ir"
proof (induction rows arbitrary: inc)
  case Nil
  then show ?case by simp
next
  case (Cons row rows)
  from anyStep_keep[OF Cons.prems, of inst fld row]
  have "r < length (anyStep ir k inst fld row inc)" "anyStep ir k inst fld row inc ! r = Some ir"
    by simp_all
  from Cons.IH[OF Cons.prems(1) this] show ?case by simp
qed

lemma filtersLoop_any_keep:
  assumes "k \<noteq> 0"
    and "filtersLoop reg ir False frame k fs inc = Inr inc'"
    and "r < length inc" "inc ! r = Some ir"
  shows "r < length inc' \<and> inc' ! r = Some ir"
proof (rule filtersLoop_invariant[where P = "\<lambda>v. r < length v \<and> v ! r = Some ir", OF _ _ assms(2)])
  fix j inst fld v
  assume "k \<le> j" and "r < length v \<and> v ! r = Some ir"
  with assms(1) show "r < length (testRows ir False j inst fld (flength frame) v)
      \<and> testRows ir False j inst fld (flength frame) v ! r = Some ir"
    using fold_anyStep_keep[of j r v ir inst fld "[0..<flength frame]"] by (simp add: testRows_def)
next
  show "r < length inc \<and> inc ! r = Some ir" using assms(3,4) by simp
qed

lemma filtersLoop_second_hit:
  assumes "resolved reg frame f0 = Some (fld0, inst0)"
    and "resolved reg frame f1 = Some (fld1, inst1)"
    and "r < flength frame"
    and "test inst1 (vget (fvalues fld1) r)"
    and "filtersLoop reg ir False frame 0 [f0, f1] inc = Inr inc'"
  shows "r < length inc' \<and> inc' ! r = Some ir"
proof -
  have nk: "\<not> unknownKind reg frame f0" "\<not> unknownKind reg frame f1"
    using assms(1,2) by (auto simp: unknownKind_def resolved_def split: option.splits)
  have "inc' = testRows ir False (Suc 0) inst1 fld1 (flength frame)
                 (testRows ir False 0 inst0 fld0 (flength frame) inc)"
    using assms(1,2,5) nk by (simp del: filtersLoop.simps(2) add: filtersLoop_Cons_cases)
  then show ?thesis
    using fold_anyStep_hit[OF assms(3,4)] by (simp add: testRows_def)
qed

lemma selectedRows_member:
  "r < length inc \<Longrightarrow> inc ! r = Some True \<Longrightarrow> \<exists>k<length (selectedRows inc). selectedRows inc ! k = r"
proof -
  assume "r < length inc" "inc ! r = Some True"
  then have "r \<in> set (selectedRows inc)" by (simp add: selectedRows_def)
  then show ?thesis by (simp add: in_set_conv_nth)
qed

lemma transformer_two_filters_any:
  assumes ty: "opt_type options = Some ''include''"
    and ma: "opt_match options = Some ''any''"
    and fs: "valueFilters options = [f0, f1]"
    and i: "i < length data"
    and r0: "resolved reg (data ! i) f0 = Some (fld0, inst0)"
    and r1: "resolved reg (data ! i) f1 = Some (fld1, inst1)"
    and r: "r < flength (data ! i)"
    and hit: "test inst1 (vget (fvalues fld1) r)"
  shows "\<exists>out. transformer reg options data = Inr out \<and> length out = length data
          \<and> (\<exists>k<flength (out ! i). \<forall>j<length (ffields (data ! i)).
                 fvalues (ffields (out ! i) ! j) ! k = vget (fvalues (ffields (data ! i) ! j)) r)"
proof -
  have known: "reg (filterType f0) \<noteq> None" "reg (filterType f1) \<noteq> None"
    using r0 r1 by (auto simp: resolved_def split: option.splits)
  have "\<not> isl (framesLoop reg True False [f0, f1] data [] [])"
    using known by (simp add: isl_framesLoop unknownKind_def)
  then obtain out inc' where run: "framesLoop reg True False [f0, f1] data [] [] = Inr (out, inc')"
    by (cases "framesLoop reg True False [f0, f1] data [] []") auto
  from framesLoop_Inr[OF run] obtain incs where
    l: "length incs = length data" and
    o: "out = map (\<lambda>(frame, v). filteredFrame frame v) (zip data incs)" and
    a: "\<forall>i<length data. (\<exists>inc0. filtersLoop reg True False (data ! i) 0 [f0, f1] inc0 = Inr (incs ! i))
            \<and> length (incs ! i) \<le> length inc'"
    by auto
  from a i obtain inc0 where
    f: "filtersLoop reg True False (data ! i) 0 [f0, f1] inc0 = Inr (incs ! i)" and
    le: "length (incs ! i) \<le> length inc'"
    by blast
  from filtersLoop_second_hit[OF r0 r1 r hit f]
  have d: "r < length (incs ! i)" "incs ! i ! r = Some True" by simp_all
  with le have "inc' \<noteq> []" by auto
  with run ty ma fs have t: "transformer reg options data = Inr out"
    by (simp add: transformer_def)
  have oi: "out ! i = filteredFrame (data ! i) (incs ! i)"
    using o l i by simp
  from selectedRows_member[OF d] obtain k where
    k: "k < length (selectedRows (incs ! i))" "selectedRows (incs ! i) ! k = r"
    by blast
  have "k < flength (out ! i)" using k(1) oi by (simp add: filteredFrame_eq)
  moreover have "\<forall>j<length (ffields (data ! i)).
                 fvalues (ffields (out ! i) ! j) ! k = vget (fvalues (ffields (data ! i) ! j)) r"
    using k oi by (simp add: filteredFrame_eq)
  moreover have "length out = length data" using o l by simp
  ultimately show ?thesis using t by blast
qed

section \<open>The claims\<close>

text \<open>
  Claim C1: frames are processed independently; the decision vector is fresh for each
  frame, so a filter whose field is absent from a frame leaves that frame's rows alone
  while another frame with the field is filtered. The code keeps one decision vector for
  the whole call (line 56): with a filter on \<^verbatim>\<open>status\<close>, the second frame below has no
  such field and still loses its row \<^verbatim>\<open>b\<close>, because row 1 of the first frame failed the
  test.
\<close>

theorem decisions_leak_into_next_frame:
  "transformer equalsRegistry (byValue [equalsFilter ''status'' ''ok''] ''include'' ''all'')
     [\<lparr>ffields = [strField ''status'' [''ok'', ''fail'']], flength = 2\<rparr>,
      \<lparr>ffields = [strField ''host'' [''a'', ''b'']], flength = 2\<rparr>]
   = Inr [\<lparr>ffields = [strField ''status'' [''ok'']], flength = 1\<rparr>,
          \<lparr>ffields = [strField ''host'' [''a'']], flength = 1\<rparr>]"
  by code_simp

text \<open>
  Claim C2: under both match policies the first filter that applies to the frame seeds
  the decisions, also when earlier filters of the list were passed over for that frame.
  The code seeds at \<^verbatim>\<open>filterIndex === 0\<close> only. When the first filter names a field the
  frame does not have, the row that passes the second filter is never flagged under match
  all and type include, and the row that fails it is never flagged under match any and
  type exclude: both results have no rows, where the claim keeps \<^verbatim>\<open>ok\<close> in the first and
  \<^verbatim>\<open>fail\<close> in the second.
\<close>

theorem no_seed_after_skipped_first_filter:
  "transformer equalsRegistry
     (byValue [equalsFilter ''missing'' ''x'', equalsFilter ''status'' ''ok''] ''include'' ''all'')
     [\<lparr>ffields = [strField ''status'' [''ok'', ''fail'']], flength = 2\<rparr>]
   = Inr [\<lparr>ffields = [strField ''status'' []], flength = 0\<rparr>]
   \<and> transformer equalsRegistry
     (byValue [equalsFilter ''missing'' ''x'', equalsFilter ''status'' ''ok''] ''exclude'' ''any'')
     [\<lparr>ffields = [strField ''status'' [''ok'', ''fail'']], flength = 2\<rparr>]
   = Inr [\<lparr>ffields = [strField ''status'' []], flength = 0\<rparr>]"
  by code_simp

text \<open>
  Claim C3, as amended: \<^verbatim>\<open>type\<close> and \<^verbatim>\<open>match\<close> are compared with \<^verbatim>\<open>'include'\<close> and
  \<^verbatim>\<open>'all'\<close> (lines 46 and 47). When \<^verbatim>\<open>type\<close> is unset or any other string, the transformer
  behaves as for \<^verbatim>\<open>'exclude'\<close>; when \<^verbatim>\<open>match\<close> is unset or any other string, it behaves as
  for \<^verbatim>\<open>'any'\<close>.
\<close>

theorem type_and_match_tested_by_equality:
  "(opt_type options \<noteq> Some ''include'' \<longrightarrow>
      transformer reg options data = transformer reg (options\<lparr>opt_type := Some ''exclude''\<rparr>) data)
   \<and> (opt_match options \<noteq> Some ''all'' \<longrightarrow>
      transformer reg options data = transformer reg (options\<lparr>opt_match := Some ''any''\<rparr>) data)"
  by (simp add: transformer_def)

text \<open>The amended claim at options with neither \<^verbatim>\<open>type\<close> nor \<^verbatim>\<open>match\<close>.\<close>

theorem type_and_match_witness:
  "transformer equalsRegistry
     \<lparr>valueFilters = [equalsFilter ''status'' ''ok''], opt_type = None, opt_match = None\<rparr>
     [scenarioFrame]
   = transformer equalsRegistry
     (\<lparr>valueFilters = [equalsFilter ''status'' ''ok''], opt_type = None, opt_match = None\<rparr>
        \<lparr>opt_type := Some ''exclude''\<rparr>)
     [scenarioFrame]
   \<and> transformer equalsRegistry
     \<lparr>valueFilters = [equalsFilter ''status'' ''ok''], opt_type = None, opt_match = None\<rparr>
     [scenarioFrame]
   = transformer equalsRegistry
     (\<lparr>valueFilters = [equalsFilter ''status'' ''ok''], opt_type = None, opt_match = None\<rparr>
        \<lparr>opt_match := Some ''any''\<rparr>)
     [scenarioFrame]"
proof -
  have a: "opt_type \<lparr>valueFilters = [equalsFilter ''status'' ''ok''], opt_type = None,
             opt_match = None\<rparr> \<noteq> Some ''include''"
    by simp
  have b: "opt_match \<lparr>valueFilters = [equalsFilter ''status'' ''ok''], opt_type = None,
             opt_match = None\<rparr> \<noteq> Some ''all''"
    by simp
  from type_and_match_tested_by_equality
    [of "\<lparr>valueFilters = [equalsFilter ''status'' ''ok''], opt_type = None, opt_match = None\<rparr>"
        equalsRegistry "[scenarioFrame]"] a b
  show ?thesis by blast
qed

text \<open>
  Claim C3 as stated (unset \<^verbatim>\<open>type\<close> behaves as include, unset \<^verbatim>\<open>match\<close> as all) fails:
  on the frame of scenario A an unset \<^verbatim>\<open>type\<close> keeps the rows that include drops, and on
  the frame with two fields an unset \<^verbatim>\<open>match\<close> keeps both rows where all keeps none.
\<close>

theorem unset_type_and_match_counterexample:
  "transformer equalsRegistry
     \<lparr>valueFilters = [equalsFilter ''status'' ''ok''], opt_type = None, opt_match = Some ''all''\<rparr>
     [scenarioFrame]
   = Inr [\<lparr>ffields = [strField ''status'' [''fail'', ''fail'']], flength = 2\<rparr>]
   \<and> transformer equalsRegistry
     \<lparr>valueFilters = [equalsFilter ''status'' ''ok''], opt_type = Some ''include'',
      opt_match = Some ''all''\<rparr>
     [scenarioFrame]
   = Inr [\<lparr>ffields = [strField ''status'' [''ok'', ''ok'']], flength = 2\<rparr>]
   \<and> transformer equalsRegistry
     \<lparr>valueFilters = [equalsFilter ''status'' ''ok'', equalsFilter ''host'' ''b''],
      opt_type = Some ''include'', opt_match = None\<rparr>
     [twoFieldFrame]
   = Inr [\<lparr>ffields = [strField ''status'' [''ok'', ''fail''], strField ''host'' [''a'', ''b'']],
           flength = 2\<rparr>]
   \<and> transformer equalsRegistry
     \<lparr>valueFilters = [equalsFilter ''status'' ''ok'', equalsFilter ''host'' ''b''],
      opt_type = Some ''include'', opt_match = Some ''all''\<rparr>
     [twoFieldFrame]
   = Inr [\<lparr>ffields = [strField ''status'' [], strField ''host'' []], flength = 0\<rparr>]"
  by code_simp

text \<open>
  Claim C4: the transformer returns its input frames when \<^verbatim>\<open>valueFilters\<close> is empty, or
  when in every frame every filter is passed over (its field is absent, or its instance is
  not valid): no decision is ever written and the test of line 137 falls through to the
  input. A call that ends in the registry's error returns nothing; that case is the
  subject of claim C5 and is excluded by \<open>skipped\<close>.
\<close>

theorem identity_when_nothing_applies:
  assumes "valueFilters options = []
           \<or> (\<forall>frame\<in>set data. \<forall>flt\<in>set (valueFilters options). skipped reg frame flt)"
  shows "transformer reg options data = Inr data"
proof (cases "valueFilters options = []")
  case True
  then show ?thesis by (simp add: transformer_def)
next
  case False
  with assms have "\<forall>frame\<in>set data. \<forall>flt\<in>set (valueFilters options). skipped reg frame flt"
    by simp
  from framesLoop_skipped[OF this]
  obtain out where "framesLoop reg (opt_type options = Some ''include'')
       (opt_match options = Some ''all'') (valueFilters options) data [] [] = Inr (out, [])"
    by blast
  then show ?thesis by (simp add: transformer_def Let_def)
qed

text \<open>
  One filter with an empty expression, whose instance is not valid, and one filter on a
  field that the frame does not have.
\<close>

theorem identity_witness:
  "transformer equalsRegistry
     (byValue [equalsFilter ''status'' '''', equalsFilter ''missing'' ''x''] ''include'' ''all'')
     [scenarioFrame] = Inr [scenarioFrame]"
  by (rule identity_when_nothing_applies)
     (simp add: example_defs skipped_def getFieldDisplayName_def)

text \<open>
  Claim C5: the call fails when, in some frame, some filter's field is found and the
  filter's type is not registered; and it fails in no other case.
\<close>

theorem unknown_kind_fails:
  "(\<exists>e. transformer reg options data = Inl e)
   = (\<exists>frame\<in>set data. \<exists>flt\<in>set (valueFilters options).
        findField (ffields frame) (fieldName flt) \<noteq> None \<and> reg (filterType flt) = None)"
  using isl_transformer[of reg options data] by (simp add: isl_def unknownKind_def)

text \<open>
  A filter of the unregistered type \<^verbatim>\<open>between\<close>: the first frame has no field \<^verbatim>\<open>status\<close>,
  the second one has, and the call fails.
\<close>

theorem unknown_kind_fails_witness:
  "transformer equalsRegistry
     \<lparr>valueFilters = [(equalsFilter ''status'' ''ok'')\<lparr>filterType := ''between''\<rparr>],
      opt_type = Some ''include'', opt_match = Some ''all''\<rparr>
     [\<lparr>ffields = [strField ''host'' [''a'']], flength = 1\<rparr>,
      \<lparr>ffields = [strField ''status'' [''ok'']], flength = 1\<rparr>]
   = Inl (UnknownPredicateKind ''between'')
   \<and> (\<exists>e. transformer equalsRegistry
     \<lparr>valueFilters = [(equalsFilter ''status'' ''ok'')\<lparr>filterType := ''between''\<rparr>],
      opt_type = Some ''include'', opt_match = Some ''all''\<rparr>
     [\<lparr>ffields = [strField ''host'' [''a'']], flength = 1\<rparr>,
      \<lparr>ffields = [strField ''status'' [''ok'']], flength = 1\<rparr>] = Inl e)"
proof -
  have "\<exists>e. transformer equalsRegistry
     \<lparr>valueFilters = [(equalsFilter ''status'' ''ok'')\<lparr>filterType := ''between''\<rparr>],
      opt_type = Some ''include'', opt_match = Some ''all''\<rparr>
     [\<lparr>ffields = [strField ''host'' [''a'']], flength = 1\<rparr>,
      \<lparr>ffields = [strField ''status'' [''ok'']], flength = 1\<rparr>] = Inl e"
    by (simp add: unknown_kind_fails equalsFilter_def strField_def equalsRegistry_def
          getFieldDisplayName_def)
  moreover have "transformer equalsRegistry
     \<lparr>valueFilters = [(equalsFilter ''status'' ''ok'')\<lparr>filterType := ''between''\<rparr>],
      opt_type = Some ''include'', opt_match = Some ''all''\<rparr>
     [\<lparr>ffields = [strField ''host'' [''a'']], flength = 1\<rparr>,
      \<lparr>ffields = [strField ''status'' [''ok'']], flength = 1\<rparr>]
   = Inl (UnknownPredicateKind ''between'')"
    by code_simp
  ultimately show ?thesis by simp
qed

text \<open>
  Claim C6 (scenarios A and B): one frame with the string field \<^verbatim>\<open>status\<close> holding
  \<^verbatim>\<open>ok, fail, ok, fail\<close>, one filter on \<^verbatim>\<open>status\<close> with expression \<^verbatim>\<open>ok\<close>, match all. For
  every registry whose entry for the filter's type yields a valid instance that tests
  equality with \<^verbatim>\<open>ok\<close>, type include returns the two rows \<^verbatim>\<open>ok\<close> and type exclude the
  two rows \<^verbatim>\<open>fail\<close>.
\<close>

theorem scenario_A_B:
  assumes "reg k = Some getInstance"
    and "isValid (getInstance \<lparr>io_filterExpression = Some ''ok'', io_filterExpression2 = e2,
                       io_filterArgs = args, io_fieldType = FString\<rparr>)"
    and "\<And>v. test (getInstance \<lparr>io_filterExpression = Some ''ok'', io_filterExpression2 = e2,
                       io_filterArgs = args, io_fieldType = FString\<rparr>) v = (v = Val ''ok'')"
  shows "transformer reg
     \<lparr>valueFilters = [\<lparr>fieldName = Some ''status'', filterExpression = Some ''ok'',
          filterExpression2 = e2, filterArgs = args, filterType = k\<rparr>],
       opt_type = Some ''include'', opt_match = Some ''all''\<rparr>
     [\<lparr>ffields = [\<lparr>name = ''status'', ftype = FString,
          fvalues = [Val ''ok'', Val ''fail'', Val ''ok'', Val ''fail''], config = c\<rparr>], flength = 4\<rparr>]
   = Inr [\<lparr>ffields = [\<lparr>name = ''status'', ftype = FString,
          fvalues = [Val ''ok'', Val ''ok''], config = c\<rparr>], flength = 2\<rparr>]
   \<and> transformer reg
     \<lparr>valueFilters = [\<lparr>fieldName = Some ''status'', filterExpression = Some ''ok'',
          filterExpression2 = e2, filterArgs = args, filterType = k\<rparr>],
       opt_type = Some ''exclude'', opt_match = Some ''all''\<rparr>
     [\<lparr>ffields = [\<lparr>name = ''status'', ftype = FString,
          fvalues = [Val ''ok'', Val ''fail'', Val ''ok'', Val ''fail''], config = c\<rparr>], flength = 4\<rparr>]
   = Inr [\<lparr>ffields = [\<lparr>name = ''status'', ftype = FString,
          fvalues = [Val ''fail'', Val ''fail''], config = c\<rparr>], flength = 2\<rparr>]"
  using assms
  by (simp add: transformer_def getFieldDisplayName_def testRows_def allStep_def setRow_def
      vget_def filteredFrame_def copyStep_def addRow_def skeleton_def
      upt_rec[of _ "numeral _"] upt_rec[of _ "Suc _"] eval_nat_numeral)

text \<open>The two scenarios with the registry that holds \<^verbatim>\<open>equals\<close>.\<close>

theorem scenario_A_B_witness:
  "transformer equalsRegistry (byValue [equalsFilter ''status'' ''ok''] ''include'' ''all'')
     [scenarioFrame]
   = Inr [\<lparr>ffields = [strField ''status'' [''ok'', ''ok'']], flength = 2\<rparr>]
   \<and> transformer equalsRegistry (byValue [equalsFilter ''status'' ''ok''] ''exclude'' ''all'')
     [scenarioFrame]
   = Inr [\<lparr>ffields = [strField ''status'' [''fail'', ''fail'']], flength = 2\<rparr>]"
  using scenario_A_B[of equalsRegistry "''equals''" equalsInstance None "()" "()"]
  by (simp add: example_defs)

text \<open>
  Claim C7: under match any and type include, with two filters that both apply to a
  frame, a row that satisfies the second filter only is part of that frame's output: some
  output row \<open>k\<close> carries, in every field, the value of input row \<open>r\<close>. More generally,
  under match any, a decision that is positive stays positive through all filters after
  the first one (\<open>filterIndex \<noteq> 0\<close>).
\<close>

theorem match_any_keeps_positive:
  "(opt_type options = Some ''include'' \<and> opt_match options = Some ''any''
      \<and> valueFilters options = [f0, f1] \<and> i < length data
      \<and> resolved reg (data ! i) f0 = Some (fld0, inst0)
      \<and> resolved reg (data ! i) f1 = Some (fld1, inst1)
      \<and> r < flength (data ! i)
      \<and> \<not> test inst0 (vget (fvalues fld0) r) \<and> test inst1 (vget (fvalues fld1) r)
    \<longrightarrow> (\<exists>out. transformer reg options data = Inr out \<and> length out = length data
          \<and> (\<exists>k<flength (out ! i). \<forall>j<length (ffields (data ! i)).
                 fvalues (ffields (out ! i) ! j) ! k = vget (fvalues (ffields (data ! i) ! j)) r)))
   \<and> (filterIndex \<noteq> 0
      \<and> filtersLoop reg' includeRow False frame filterIndex filters inc = Inr inc'
      \<and> row < length inc \<and> inc ! row = Some includeRow
    \<longrightarrow> row < length inc' \<and> inc' ! row = Some includeRow)"
  using transformer_two_filters_any[of options f0 f1 i data reg fld0 inst0 fld1 inst1 r]
    filtersLoop_any_keep[of filterIndex reg' includeRow frame filters inc inc' row]
  by blast

text \<open>
  Row 1 of the frame with two fields fails \<^verbatim>\<open>status = ok\<close> and passes \<^verbatim>\<open>host = b\<close>; and
  row 0, already included, fails a later filter \<^verbatim>\<open>host = b\<close> and stays included.
\<close>

theorem match_any_keeps_positive_witness:
  "(\<exists>out. transformer equalsRegistry
            (byValue [equalsFilter ''status'' ''ok'', equalsFilter ''host'' ''b''] ''include'' ''any'')
            [twoFieldFrame] = Inr out
        \<and> length out = length [twoFieldFrame]
        \<and> (\<exists>k<flength (out ! 0). \<forall>j<length (ffields ([twoFieldFrame] ! 0)).
              fvalues (ffields (out ! 0) ! j) ! k
              = vget (fvalues (ffields ([twoFieldFrame] ! 0) ! j)) 1))
   \<and> (0 < length [Some True, Some True] \<and> [Some True, Some True] ! 0 = Some True)"
proof -
  let ?o = "byValue [equalsFilter ''status'' ''ok'', equalsFilter ''host'' ''b''] ''include'' ''any''"
  let ?i0 = "equalsInstance \<lparr>io_filterExpression = Some ''ok'', io_filterExpression2 = None,
                io_filterArgs = (), io_fieldType = FString\<rparr>"
  let ?i1 = "equalsInstance \<lparr>io_filterExpression = Some ''b'', io_filterExpression2 = None,
                io_filterArgs = (), io_fieldType = FString\<rparr>"
  have o: "opt_type ?o = Some ''include''" "opt_match ?o = Some ''any''"
    "valueFilters ?o = [equalsFilter ''status'' ''ok'', equalsFilter ''host'' ''b'']"
    by (simp_all add: byValue_def)
  have i: "0 < length [twoFieldFrame]" by simp
  have r0: "resolved equalsRegistry ([twoFieldFrame] ! 0) (equalsFilter ''status'' ''ok'')
            = Some (strField ''status'' [''ok'', ''fail''], ?i0)"
    by (simp add: resolved_def example_defs getFieldDisplayName_def)
  have r1: "resolved equalsRegistry ([twoFieldFrame] ! 0) (equalsFilter ''host'' ''b'')
            = Some (strField ''host'' [''a'', ''b''], ?i1)"
    by (simp add: resolved_def example_defs getFieldDisplayName_def)
  have r: "1 < flength ([twoFieldFrame] ! 0)" by (simp add: twoFieldFrame_def)
  have t0: "\<not> test ?i0 (vget (fvalues (strField ''status'' [''ok'', ''fail''])) 1)"
    by (simp add: example_defs vget_def)
  have t1: "test ?i1 (vget (fvalues (strField ''host'' [''a'', ''b''])) 1)"
    by (simp add: example_defs vget_def)
  have k: "Suc 0 \<noteq> 0" by simp
  have f: "filtersLoop equalsRegistry True False twoFieldFrame (Suc 0) [equalsFilter ''host'' ''b'']
             [Some True, Some False] = Inr [Some True, Some True]"
    by code_simp
  have d: "0 < length [Some True, Some False]" "[Some True, Some False] ! 0 = Some True"
    by simp_all
  from match_any_keeps_positive
    [where options = ?o and ?f0.0 = "equalsFilter ''status'' ''ok''"
       and ?f1.0 = "equalsFilter ''host'' ''b''" and i = 0 and data = "[twoFieldFrame]"
       and reg = equalsRegistry and ?fld0.0 = "strField ''status'' [''ok'', ''fail'']"
       and ?inst0.0 = ?i0 and ?fld1.0 = "strField ''host'' [''a'', ''b'']" and ?inst1.0 = ?i1
       and r = 1 and filterIndex = "Suc 0" and reg' = equalsRegistry and includeRow = True
       and frame = twoFieldFrame and filters = "[equalsFilter ''host'' ''b'']"
       and inc = "[Some True, Some False]" and inc' = "[Some True, Some True]" and row = 0]
    o i r0 r1 r t0 t1 k f d
  show ?thesis by blast
qed

text \<open>
  Claim C8: the output rows of every frame are a subsequence of that frame's input rows,
  in the original order. The copy loop runs over the indices of the decision vector
  shared by all frames (lines 56 and 122): a frame of one row that follows a frame of
  three rows comes out with three rows, two of which are \<^verbatim>\<open>undefined\<close> and no input row.
\<close>

theorem rows_past_the_end_are_emitted:
  "transformer equalsRegistry (byValue [equalsFilter ''status'' ''ok''] ''include'' ''all'')
     [\<lparr>ffields = [strField ''status'' [''ok'', ''ok'', ''ok'']], flength = 3\<rparr>,
      \<lparr>ffields = [strField ''host'' [''a'']], flength = 1\<rparr>]
   = Inr [\<lparr>ffields = [strField ''status'' [''ok'', ''ok'', ''ok'']], flength = 3\<rparr>,
          \<lparr>ffields = [\<lparr>name = ''host'', ftype = FString,
                        fvalues = [Val ''a'', Undefined, Undefined], config = ()\<rparr>],
            flength = 3\<rparr>]"
  by code_simp

text \<open>
  Claim C9: every output frame has as many fields as its input frame, and every output
  field has the name, type tag and configuration of the input field at its position;
  when the result is not the input itself, the value vector of every output field has
  exactly as many elements as the output frame's length says.
\<close>

theorem shape_preserved:
  assumes "transformer reg options data = Inr out"
  shows "length out = length data
     \<and> (\<forall>i<length data.
          length (ffields (out ! i)) = length (ffields (data ! i))
          \<and> (\<forall>j<length (ffields (data ! i)).
                name (ffields (out ! i) ! j) = name (ffields (data ! i) ! j)
                \<and> ftype (ffields (out ! i) ! j) = ftype (ffields (data ! i) ! j)
                \<and> config (ffields (out ! i) ! j) = config (ffields (data ! i) ! j)
                \<and> (out = data \<or> length (fvalues (ffields (out ! i) ! j)) = flength (out ! i))))"
proof (cases "out = data")
  case True
  then show ?thesis by simp
next
  case False
  with assms obtain inc' where
    run: "framesLoop reg (opt_type options = Some ''include'') (opt_match options = Some ''all'')
            (valueFilters options) data [] [] = Inr (out, inc')"
    by (auto simp: transformer_def Let_def split: if_splits sum.splits prod.splits)
  from framesLoop_Inr[OF run] obtain incs where
    l: "length incs = length data" and
    o: "out = map (\<lambda>(frame, v). filteredFrame frame v) (zip data incs)"
    by auto
  have "\<And>i. i < length data \<Longrightarrow> out ! i = filteredFrame (data ! i) (incs ! i)"
    using o l by simp
  then show ?thesis using o l by (simp add: filteredFrame_eq)
qed

text \<open>The frame with two fields, cut down to its second row.\<close>

theorem shape_preserved_witness:
  "transformer equalsRegistry
     (byValue [equalsFilter ''status'' ''fail'', equalsFilter ''host'' ''b''] ''include'' ''all'')
     [twoFieldFrame]
   = Inr [\<lparr>ffields = [strField ''status'' [''fail''], strField ''host'' [''b'']], flength = 1\<rparr>]
   \<and> length [\<lparr>ffields = [strField ''status'' [''fail''], strField ''host'' [''b'']],
               flength = 1\<rparr>]
     = length [twoFieldFrame]
   \<and> length (ffields ([\<lparr>ffields = [strField ''status'' [''fail''], strField ''host'' [''b'']],
                          flength = 1\<rparr>] ! 0))
     = length (ffields ([twoFieldFrame] ! 0))
   \<and> name (ffields ([\<lparr>ffields = [strField ''status'' [''fail''], strField ''host'' [''b'']],
                        flength = 1\<rparr>] ! 0) ! 1)
     = name (ffields ([twoFieldFrame] ! 0) ! 1)
   \<and> ftype (ffields ([\<lparr>ffields = [strField ''status'' [''fail''], strField ''host'' [''b'']],
                         flength = 1\<rparr>] ! 0) ! 1)
     = ftype (ffields ([twoFieldFrame] ! 0) ! 1)
   \<and> config (ffields ([\<lparr>ffields = [strField ''status'' [''fail''], strField ''host'' [''b'']],
                          flength = 1\<rparr>] ! 0) ! 1)
     = config (ffields ([twoFieldFrame] ! 0) ! 1)
   \<and> ([\<lparr>ffields = [strField ''status'' [''fail''], strField ''host'' [''b'']], flength = 1\<rparr>]
        = [twoFieldFrame]
      \<or> length (fvalues (ffields ([\<lparr>ffields = [strField ''status'' [''fail''],
                                          strField ''host'' [''b'']],
                                        flength = 1\<rparr>] ! 0) ! 1))
        = flength ([\<lparr>ffields = [strField ''status'' [''fail''], strField ''host'' [''b'']],
                     flength = 1\<rparr>] ! 0))"
proof -
  have h: "transformer equalsRegistry
     (byValue [equalsFilter ''status'' ''fail'', equalsFilter ''host'' ''b''] ''include'' ''all'')
     [twoFieldFrame]
   = Inr [\<lparr>ffields = [strField ''status'' [''fail''], strField ''host'' [''b'']], flength = 1\<rparr>]"
    by code_simp
  have i: "0 < length [twoFieldFrame]" by simp
  have j: "1 < length (ffields ([twoFieldFrame] ! 0))" by (simp add: twoFieldFrame_def)
  from shape_preserved[OF h] h i j show ?thesis by blast
qed

text \<open>
  Claim C10: under match all and type include, transforming the output again with the
  same options changes nothing. With two frames the first pass pads the shorter frame
  with \<^verbatim>\<open>undefined\<close> rows, taken from the decisions of the longer one, and the second pass
  removes them again.
\<close>

theorem second_pass_differs:
  "transformer equalsRegistry (byValue [equalsFilter ''status'' ''ok''] ''include'' ''all'')
     [\<lparr>ffields = [strField ''status'' [''ok'', ''ok'', ''ok'']], flength = 3\<rparr>,
      \<lparr>ffields = [strField ''status'' [''ok'']], flength = 1\<rparr>]
   = Inr [\<lparr>ffields = [strField ''status'' [''ok'', ''ok'', ''ok'']], flength = 3\<rparr>,
          \<lparr>ffields = [\<lparr>name = ''status'', ftype = FString,
                        fvalues = [Val ''ok'', Undefined, Undefined], config = ()\<rparr>],
            flength = 3\<rparr>]
   \<and> transformer equalsRegistry (byValue [equalsFilter ''status'' ''ok''] ''include'' ''all'')
       [\<lparr>ffields = [strField ''status'' [''ok'', ''ok'', ''ok'']], flength = 3\<rparr>,
        \<lparr>ffields = [\<lparr>name = ''status'', ftype = FString,
                      fvalues = [Val ''ok'', Undefined, Undefined], config = ()\<rparr>],
          flength = 3\<rparr>]
     = Inr [\<lparr>ffields = [strField ''status'' [''ok'', ''ok'', ''ok'']], flength = 3\<rparr>,
            \<lparr>ffields = [strField ''status'' [''ok'']], flength = 1\<rparr>]"
  by code_simp

end
